theory Spec2Isabelle
  imports Main
begin

section \<open>AtlasWriter: selection, coordinate translation and edits\<close>

text \<open>
  A shallow embedding of the class \<open>AtlasWriter\<close> of \<open>atlas_writer-5.py\<close>: the methods
  \<open>parse_segment_selection\<close>, \<open>parse_truncation\<close>, \<open>parse_poly_a\<close> and
  \<open>combine_segments\<close>, and the part of \<open>main\<close> that chains them. Reading the FASTA file
  (\<open>load_segments\<close>) and writing the record are input and output and are not modelled:
  the loaded object, with its fields \<open>segments\<close> and \<open>segment_data\<close>, is the input here.

  Python strings are modelled as \<open>string\<close> (ASCII characters), Python integers as
  \<open>int\<close>. A call of \<open>sys.exit\<close> and an exception that nothing catches are values
  \<open>Inl e\<close> of the result type.
\<close>

subsection \<open>Python's string primitives\<close>

text \<open>\<open>s.split(sep)\<close> for a separator of one character: always at least one part.\<close>

fun split_on :: "char \<Rightarrow> string \<Rightarrow> string list" where
  "split_on sep [] = [[]]"
| "split_on sep (c # cs) =
     (if c = sep then [] # split_on sep cs
      else (case split_on sep cs of
              [] \<Rightarrow> [[c]]
            | p # ps \<Rightarrow> (c # p) # ps))"

text \<open>\<open>sep.join(parts)\<close>.\<close>

fun join :: "string \<Rightarrow> string list \<Rightarrow> string" where
  "join sep [] = []"
| "join sep [p] = p"
| "join sep (p # q # ps) = p @ sep @ join sep (q # ps)"

text \<open>
  The characters \<open>int()\<close> strips from both ends of its argument: the ASCII white space
  (codes 9 to 13, 28 to 31 and 32).
\<close>

definition is_space :: "char \<Rightarrow> bool" where
  "is_space c \<longleftrightarrow>
     (let n = (of_char c :: nat) in (9 \<le> n \<and> n \<le> 13) \<or> (28 \<le> n \<and> n \<le> 32))"

definition strip :: "string \<Rightarrow> string" where
  "strip s = rev (dropWhile is_space (rev (dropWhile is_space s)))"

definition is_digit :: "char \<Rightarrow> bool" where
  "is_digit c \<longleftrightarrow> c \<in> set ''0123456789''"

definition digit_val :: "char \<Rightarrow> nat" where
  "digit_val c = of_char c - 48"

text \<open>
  The digits of a decimal literal, read from the left with the value so far. A single
  underscore may stand between two digits, as \<open>int('1_000')\<close> allows.
\<close>

fun digits_value :: "nat \<Rightarrow> string \<Rightarrow> nat option" where
  "digits_value acc [] = Some acc"
| "digits_value acc [c] =
     (if is_digit c then Some (acc * 10 + digit_val c) else None)"
| "digits_value acc (c # d # cs) =
     (if is_digit c then digits_value (acc * 10 + digit_val c) (d # cs)
      else if c = CHR ''_'' \<and> is_digit d then digits_value acc (d # cs)
      else None)"

text \<open>An unsigned literal starts with a digit.\<close>

definition unsigned_value :: "string \<Rightarrow> nat option" where
  "unsigned_value s =
     (case s of
        [] \<Rightarrow> None
      | c # cs \<Rightarrow> if is_digit c then digits_value 0 s else None)"

text \<open>
  \<open>int(s)\<close> in base ten: \<open>None\<close> is the \<open>ValueError\<close> of an invalid literal. The
  interpreter's bound on the number of digits of a literal is not modelled.
\<close>

definition py_int :: "string \<Rightarrow> int option" where
  "py_int s =
     (case strip s of
        [] \<Rightarrow> None
      | c # cs \<Rightarrow>
          if c = CHR ''-'' then map_option (\<lambda>n. - int n) (unsigned_value cs)
          else if c = CHR ''+'' then map_option int (unsigned_value cs)
          else map_option int (unsigned_value (c # cs)))"

text \<open>\<open>s.isdigit()\<close> on ASCII: not empty, and decimal digits only.\<close>

definition isdigit :: "string \<Rightarrow> bool" where
  "isdigit s \<longleftrightarrow> s \<noteq> [] \<and> list_all is_digit s"

text \<open>\<open>str(n)\<close> for an integer.\<close>

definition digit_char :: "nat \<Rightarrow> char" where
  "digit_char n = ''0123456789'' ! (n mod 10)"

function str_nat :: "nat \<Rightarrow> string" where
  "str_nat n = (if n < 10 then [digit_char n] else str_nat (n div 10) @ [digit_char n])"
  by pat_completeness auto
termination
  by (relation "measure id") auto

declare str_nat.simps [simp del]

definition str_int :: "int \<Rightarrow> string" where
  "str_int i = (if i < 0 then CHR ''-'' # str_nat (nat (- i)) else str_nat (nat i))"

text \<open>
  The slices \<open>s[a:b]\<close> and \<open>s[:b]\<close>: a negative bound counts from the end, and every
  bound is clamped to the string.
\<close>

definition slice_bound :: "'a list \<Rightarrow> int \<Rightarrow> nat" where
  "slice_bound s i =
     (if i < 0 then nat (int (length s) + i) else min (nat i) (length s))"

definition py_slice :: "'a list \<Rightarrow> int \<Rightarrow> int \<Rightarrow> 'a list" where
  "py_slice s a b = drop (slice_bound s a) (take (slice_bound s b) s)"

definition py_slice_to :: "'a list \<Rightarrow> int \<Rightarrow> 'a list" where
  "py_slice_to s b = take (slice_bound s b) s"

subsection \<open>The loaded object\<close>

text \<open>
  One value of \<open>self.segment_data\<close>: the dictionary with the keys \<open>accession\<close>,
  \<open>start\<close>, \<open>end\<close>, \<open>header\<close> and \<open>sequence\<close>.
\<close>

record segment =
  seg_accession :: string
  seg_start :: int
  seg_end :: int
  seg_header :: string
  seg_sequence :: string

text \<open>
  \<open>self.segments\<close> is the list of tuples \<open>(i, accession, start, end, header, sequence)\<close>,
  of which the methods below read the length only; \<open>self.segment_data\<close> is the
  dictionary from a segment's index to its data. An entry whose header could not be
  parsed is in neither, so the keys of \<open>segment_data\<close> may have gaps.
\<close>

record atlas =
  segments :: "(int \<times> string \<times> int \<times> int \<times> string \<times> string) list"
  segment_data :: "int \<rightharpoonup> segment"

text \<open>
  The ways a run ends early: one constructor for each message given to \<open>sys.exit\<close>,
  with the values the message prints, and the exceptions that nothing catches.
\<close>

datatype error =
    InvalidRangeFormat string
      \<comment> \<open>\<open>Error: Invalid range format in '{part}'\<close>\<close>
  | InvalidSegmentIndex string
      \<comment> \<open>\<open>Error: Invalid segment index: {part}\<close>\<close>
  | TruncationSegmentsNotSelected
      \<comment> \<open>\<open>Error: Truncation segments must be included in the selected segments\<close>\<close>
  | InvalidRangeTruncationFormat
      \<comment> \<open>\<open>Error: Invalid truncation format. Use 'upstream_segment:upstream_base-...'\<close>\<close>
  | TruncationSegmentNotSelected
      \<comment> \<open>\<open>Error: Truncation segment must be included in the selected segments\<close>\<close>
  | InvalidCutTruncationFormat
      \<comment> \<open>\<open>Error: Invalid truncation format. Use 'segment:position'\<close>\<close>
  | InvalidBareTruncationFormat
      \<comment> \<open>\<open>Error: Invalid truncation format. Use 'segment:position/' or ...\<close>\<close>
  | PolyASegmentNotSelected
      \<comment> \<open>\<open>Error: PolyA segment must be included in the selected segments\<close>\<close>
  | PositionBeyondSegment int int nat
      \<comment> \<open>\<open>Error: Position {position} is beyond the length of segment {segment} (length: ...)\<close>\<close>
  | InvalidPolyAFormat
      \<comment> \<open>\<open>Error: Invalid polyA format. Use 'segment:position/count' or 'position/count'\<close>\<close>
  | NoSegmentsSelected
      \<comment> \<open>\<open>Error: No segments selected\<close>\<close>
  | InvalidTruncationRange int int
      \<comment> \<open>\<open>Error: Invalid truncation range: {start_idx}-{end_idx}\<close>\<close>
  | PolyABeyondSequence int nat
      \<comment> \<open>\<open>Error: PolyA position {poly_a_pos} is beyond the length of the combined sequence ...\<close>\<close>
  | NoSelectionProvided
      \<comment> \<open>\<open>Error: No segment selection provided. Use --include_locus_segment or --list\<close>\<close>
  | KeyError int
      \<comment> \<open>\<open>self.segment_data[i]\<close> for an index that is not a key\<close>
  | IndexError
      \<comment> \<open>a list read outside its bounds\<close>

text \<open>\<open>self.segment_data[idx]\<close>.\<close>

definition get_segment :: "atlas \<Rightarrow> int \<Rightarrow> error + segment" where
  "get_segment self idx =
     (case segment_data self idx of
        None \<Rightarrow> Inl (KeyError idx)
      | Some s \<Rightarrow> Inr s)"

text \<open>\<open>xs[i]\<close> for an index that is not negative.\<close>

definition py_index :: "'a list \<Rightarrow> nat \<Rightarrow> error + 'a" where
  "py_index xs i = (if i < length xs then Inr (xs ! i) else Inl IndexError)"

text \<open>
  \<open>a, b = map(int, parts)\<close>: \<open>None\<close> is the \<open>ValueError\<close> raised when there are not
  exactly two parts or when one of them is not an integer literal.
\<close>

fun unpack_two_ints :: "string list \<Rightarrow> (int \<times> int) option" where
  "unpack_two_ints [a, b] =
     (case py_int a of
        None \<Rightarrow> None
      | Some x \<Rightarrow> (case py_int b of None \<Rightarrow> None | Some y \<Rightarrow> Some (x, y)))"
| "unpack_two_ints parts = None"

subsection \<open>\<open>parse_segment_selection\<close>\<close>

text \<open>The body of the loop over the parts: the indices one part adds.\<close>

definition parse_part :: "atlas \<Rightarrow> string \<Rightarrow> error + int list" where
  "parse_part self part =
     (if CHR ''-'' \<in> set part then
        (case unpack_two_ints (split_on CHR ''-'' part) of
           None \<Rightarrow> Inl (InvalidRangeFormat part)
         | Some (start, end') \<Rightarrow>
             if start < 1 \<or> end' > int (length (segments self)) \<or> start > end'
             then Inl (InvalidRangeFormat part)
             else Inr [start..end'])
      else
        (case py_int part of
           None \<Rightarrow> Inl (InvalidSegmentIndex part)
         | Some index \<Rightarrow>
             if index < 1 \<or> index > int (length (segments self))
             then Inl (InvalidSegmentIndex part)
             else Inr [index]))"

fun selection_loop :: "atlas \<Rightarrow> string list \<Rightarrow> int list \<Rightarrow> error + int list" where
  "selection_loop self [] selected_indices = Inr selected_indices"
| "selection_loop self (part # parts) selected_indices =
     (case parse_part self part of
        Inl e \<Rightarrow> Inl e
      | Inr ids \<Rightarrow> selection_loop self parts (selected_indices @ ids))"

definition parse_segment_selection :: "atlas \<Rightarrow> string \<Rightarrow> error + int list" where
  "parse_segment_selection self selection =
     (case selection_loop self (split_on CHR '','' selection) [] of
        Inl e \<Rightarrow> Inl e
      | Inr selected_indices \<Rightarrow> Inr (sorted_list_of_set (set selected_indices)))"

subsection \<open>\<open>parse_truncation\<close>\<close>

text \<open>
  \<open>sum(len(self.segment_data[i]['sequence']) for i in selected_indices if i < segment)\<close>,
  the expression each branch of \<open>parse_truncation\<close> starts its position from.
\<close>

fun prefix_length :: "atlas \<Rightarrow> int list \<Rightarrow> int \<Rightarrow> error + int" where
  "prefix_length self [] segment = Inr 0"
| "prefix_length self (i # selected_indices) segment =
     (if i < segment then
        (case get_segment self i of
           Inl e \<Rightarrow> Inl e
         | Inr s \<Rightarrow>
             (case prefix_length self selected_indices segment of
                Inl e \<Rightarrow> Inl e
              | Inr n \<Rightarrow> Inr (int (length (seg_sequence s)) + n)))
      else prefix_length self selected_indices segment)"

text \<open>The branch of a truncation with a \<open>-\<close>: keep the bases between two positions.\<close>

definition parse_truncation_range ::
  "atlas \<Rightarrow> string \<Rightarrow> int list \<Rightarrow> error + (int option \<times> int option \<times> int option)" where
  "parse_truncation_range self truncation selected_indices =
     (case split_on CHR ''-'' truncation of
        [start_spec, end_spec] \<Rightarrow>
          (case unpack_two_ints (split_on CHR '':'' start_spec) of
             None \<Rightarrow> Inl InvalidRangeTruncationFormat
           | Some (start_segment, start_pos) \<Rightarrow>
               (case unpack_two_ints (split_on CHR '':'' end_spec) of
                  None \<Rightarrow> Inl InvalidRangeTruncationFormat
                | Some (end_segment, end_pos) \<Rightarrow>
                    if start_segment \<notin> set selected_indices \<or> end_segment \<notin> set selected_indices
                    then Inl TruncationSegmentsNotSelected
                    else
                      (case prefix_length self selected_indices start_segment of
                         Inl e \<Rightarrow> Inl e
                       | Inr global_start \<Rightarrow>
                           (case prefix_length self selected_indices end_segment of
                              Inl e \<Rightarrow> Inl e
                            | Inr global_end \<Rightarrow>
                                Inr (Some (global_start + (start_pos - 1)),
                                     Some (global_end + end_pos), None)))))
      | _ \<Rightarrow> Inl InvalidRangeTruncationFormat)"

text \<open>
  The branch with a \<open>/\<close> and no \<open>-\<close>: cut after a position, with an optional count of
  A's behind the \<open>/\<close>.
\<close>

definition parse_truncation_cut ::
  "atlas \<Rightarrow> string \<Rightarrow> int list \<Rightarrow> error + (int option \<times> int option \<times> int option)" where
  "parse_truncation_cut self truncation selected_indices =
     (case split_on CHR ''/'' truncation of
        [] \<Rightarrow> Inl IndexError
      | segment_pos_part # rest \<Rightarrow>
          (case unpack_two_ints (split_on CHR '':'' segment_pos_part) of
             None \<Rightarrow> Inl InvalidCutTruncationFormat
           | Some (segment, position) \<Rightarrow>
               (case (case rest of
                        [] \<Rightarrow> Some None
                      | poly_a_part # _ \<Rightarrow>
                          if poly_a_part \<noteq> [] \<and> isdigit poly_a_part
                          then map_option Some (py_int poly_a_part)
                          else Some None) of
                  None \<Rightarrow> Inl InvalidCutTruncationFormat
                | Some poly_a_count \<Rightarrow>
                    if segment \<notin> set selected_indices then Inl TruncationSegmentNotSelected
                    else
                      (case prefix_length self selected_indices segment of
                         Inl e \<Rightarrow> Inl e
                       | Inr global_pos \<Rightarrow>
                           Inr (None, Some (global_pos + position), poly_a_count)))))"

text \<open>The last branch, \<open>segment:position\<close>, kept for backward compatibility.\<close>

definition parse_truncation_bare ::
  "atlas \<Rightarrow> string \<Rightarrow> int list \<Rightarrow> error + (int option \<times> int option \<times> int option)" where
  "parse_truncation_bare self truncation selected_indices =
     (case unpack_two_ints (split_on CHR '':'' truncation) of
        None \<Rightarrow> Inl InvalidBareTruncationFormat
      | Some (segment, position) \<Rightarrow>
          if segment \<notin> set selected_indices then Inl TruncationSegmentNotSelected
          else
            (case prefix_length self selected_indices segment of
               Inl e \<Rightarrow> Inl e
             | Inr global_pos \<Rightarrow> Inr (None, Some (global_pos + position), None)))"

definition parse_truncation ::
  "atlas \<Rightarrow> string \<Rightarrow> int list \<Rightarrow> error + (int option \<times> int option \<times> int option)" where
  "parse_truncation self truncation selected_indices =
     (if truncation = [] then Inr (None, None, None)
      else if CHR ''-'' \<in> set truncation
        then parse_truncation_range self truncation selected_indices
      else if CHR ''/'' \<in> set truncation
        then parse_truncation_cut self truncation selected_indices
      else parse_truncation_bare self truncation selected_indices)"

subsection \<open>\<open>parse_poly_a\<close>\<close>

text \<open>
  The loop that sums the lengths of the selected segments before \<open>segment\<close> and stops
  at \<open>segment\<close>, where it adds the position.
\<close>

fun poly_a_loop :: "atlas \<Rightarrow> int list \<Rightarrow> int \<Rightarrow> int \<Rightarrow> int \<Rightarrow> error + int" where
  "poly_a_loop self [] segment position global_pos = Inr global_pos"
| "poly_a_loop self (idx # selected_indices) segment position global_pos =
     (if idx < segment then
        (case get_segment self idx of
           Inl e \<Rightarrow> Inl e
         | Inr s \<Rightarrow>
             poly_a_loop self selected_indices segment position
               (global_pos + int (length (seg_sequence s))))
      else if idx = segment then Inr (global_pos + position)
      else poly_a_loop self selected_indices segment position global_pos)"

definition parse_poly_a ::
  "atlas \<Rightarrow> string \<Rightarrow> int list \<Rightarrow> error + (int option \<times> int option)" where
  "parse_poly_a self poly_a selected_indices =
     (if poly_a = [] then Inr (None, None)
      else if CHR ''/'' \<in> set poly_a then
        (case split_on CHR ''/'' poly_a of
           [position_part, count_str] \<Rightarrow>
             (case py_int count_str of
                None \<Rightarrow> Inl InvalidPolyAFormat
              | Some count \<Rightarrow>
                  if CHR '':'' \<in> set position_part then
                    (case unpack_two_ints (split_on CHR '':'' position_part) of
                       None \<Rightarrow> Inl InvalidPolyAFormat
                     | Some (segment, position) \<Rightarrow>
                         if segment \<notin> set selected_indices then Inl PolyASegmentNotSelected
                         else
                           (case get_segment self segment of
                              Inl e \<Rightarrow> Inl e
                            | Inr s \<Rightarrow>
                                if position > int (length (seg_sequence s))
                                then Inl (PositionBeyondSegment position segment
                                            (length (seg_sequence s)))
                                else
                                  (case poly_a_loop self selected_indices segment position 0 of
                                     Inl e \<Rightarrow> Inl e
                                   | Inr global_pos \<Rightarrow> Inr (Some global_pos, Some count))))
                  else
                    (case py_int position_part of
                       None \<Rightarrow> Inl InvalidPolyAFormat
                     | Some global_pos \<Rightarrow> Inr (Some global_pos, Some count)))
         | _ \<Rightarrow> Inl InvalidPolyAFormat)
      else Inl InvalidPolyAFormat)"

subsection \<open>\<open>combine_segments\<close>\<close>

text \<open>The loop that appends the sequences of the selected segments.\<close>

fun combine_loop :: "atlas \<Rightarrow> int list \<Rightarrow> string \<Rightarrow> error + string" where
  "combine_loop self [] combined_sequence = Inr combined_sequence"
| "combine_loop self (idx # indices) combined_sequence =
     (case get_segment self idx of
        Inl e \<Rightarrow> Inl e
      | Inr s \<Rightarrow> combine_loop self indices (combined_sequence @ seg_sequence s))"

text \<open>
  The loop that looks for the segment holding the start position. It returns
  \<open>(segment_idx, cumulative_length)\<close> as they stand after the loop; when no segment
  holds the position, \<open>segment_idx\<close> still has its first value, 0.
\<close>

fun find_start_segment ::
  "atlas \<Rightarrow> int list \<Rightarrow> nat \<Rightarrow> int \<Rightarrow> int \<Rightarrow> error + (nat \<times> int)" where
  "find_start_segment self [] i cumulative_length global_start = Inr (0, cumulative_length)"
| "find_start_segment self (idx # indices) i cumulative_length global_start =
     (case get_segment self idx of
        Inl e \<Rightarrow> Inl e
      | Inr s \<Rightarrow>
          if cumulative_length + int (length (seg_sequence s)) > global_start
          then Inr (i, cumulative_length)
          else find_start_segment self indices (Suc i)
                 (cumulative_length + int (length (seg_sequence s))) global_start)"

text \<open>The same loop for the end position, with \<open>>=\<close> in place of \<open>>\<close>.\<close>

fun find_end_segment ::
  "atlas \<Rightarrow> int list \<Rightarrow> nat \<Rightarrow> int \<Rightarrow> int \<Rightarrow> error + (nat \<times> int)" where
  "find_end_segment self [] i cumulative_length global_end = Inr (0, cumulative_length)"
| "find_end_segment self (idx # indices) i cumulative_length global_end =
     (case get_segment self idx of
        Inl e \<Rightarrow> Inl e
      | Inr s \<Rightarrow>
          if cumulative_length + int (length (seg_sequence s)) \<ge> global_end
          then Inr (i, cumulative_length)
          else find_end_segment self indices (Suc i)
                 (cumulative_length + int (length (seg_sequence s))) global_end)"

text \<open>The new \<open>start_pos\<close> of the header, from \<open>global_start\<close>.\<close>

definition header_start_pos :: "atlas \<Rightarrow> int list \<Rightarrow> int \<Rightarrow> error + int" where
  "header_start_pos self indices global_start =
     (case find_start_segment self indices 0 0 global_start of
        Inl e \<Rightarrow> Inl e
      | Inr (segment_idx, cumulative_length) \<Rightarrow>
          (case py_index indices segment_idx of
             Inl e \<Rightarrow> Inl e
           | Inr idx \<Rightarrow>
               (case get_segment self idx of
                  Inl e \<Rightarrow> Inl e
                | Inr start_seg \<Rightarrow>
                    Inr (seg_start start_seg + (global_start - cumulative_length)))))"

text \<open>The new \<open>end_pos\<close> of the header, from \<open>global_end\<close>.\<close>

definition header_end_pos :: "atlas \<Rightarrow> int list \<Rightarrow> int \<Rightarrow> error + int" where
  "header_end_pos self indices global_end =
     (case find_end_segment self indices 0 0 global_end of
        Inl e \<Rightarrow> Inl e
      | Inr (segment_idx, cumulative_length) \<Rightarrow>
          (case py_index indices segment_idx of
             Inl e \<Rightarrow> Inl e
           | Inr idx \<Rightarrow>
               (case get_segment self idx of
                  Inl e \<Rightarrow> Inl e
                | Inr end_seg \<Rightarrow>
                    Inr (seg_start end_seg + (global_end - cumulative_length) - 1))))"

text \<open>
  The truncation: the truncated sequence with the header's \<open>start_pos\<close> and \<open>end_pos\<close>,
  which start as the first segment's start and the last segment's end.
\<close>

definition apply_truncation ::
  "atlas \<Rightarrow> int list \<Rightarrow> segment \<Rightarrow> segment \<Rightarrow> string \<Rightarrow> int option \<Rightarrow> int option
     \<Rightarrow> error + (string \<times> int \<times> int)" where
  "apply_truncation self indices first_segment last_segment combined_sequence
       global_start global_end =
     (if global_start \<noteq> None \<or> global_end \<noteq> None then
        (let start_idx = (case global_start of None \<Rightarrow> 0 | Some g \<Rightarrow> g);
             end_idx = (case global_end of
                          None \<Rightarrow> int (length combined_sequence)
                        | Some g \<Rightarrow> g)
         in if start_idx < 0 \<or> end_idx > int (length combined_sequence) \<or> start_idx \<ge> end_idx
            then Inl (InvalidTruncationRange start_idx end_idx)
            else
              (case (case global_start of
                       None \<Rightarrow> Inr (seg_start first_segment)
                     | Some g \<Rightarrow> header_start_pos self indices g) of
                 Inl e \<Rightarrow> Inl e
               | Inr start_pos \<Rightarrow>
                   (case (case global_end of
                            None \<Rightarrow> Inr (seg_end last_segment)
                          | Some g \<Rightarrow> header_end_pos self indices g) of
                      Inl e \<Rightarrow> Inl e
                    | Inr end_pos \<Rightarrow>
                        Inr (py_slice combined_sequence start_idx end_idx, start_pos, end_pos))))
      else Inr (combined_sequence, seg_start first_segment, seg_end last_segment))"

text \<open>The polyA tail: the final sequence and the description with its note.\<close>

definition apply_poly_a ::
  "string \<Rightarrow> string \<Rightarrow> int option \<Rightarrow> int option \<Rightarrow> error + (string \<times> string)" where
  "apply_poly_a truncated_sequence description poly_a_pos poly_a_count =
     (case poly_a_pos of
        None \<Rightarrow> Inr (truncated_sequence, description)
      | Some pos \<Rightarrow>
          (case poly_a_count of
             None \<Rightarrow> Inr (truncated_sequence, description)
           | Some count \<Rightarrow>
               if pos > int (length truncated_sequence)
               then Inl (PolyABeyondSequence pos (length truncated_sequence))
               else Inr (py_slice_to truncated_sequence pos @ replicate (nat count) CHR ''A'',
                         description @ '' (with '' @ str_int count @ '' polyA tail)'')))"

text \<open>The description before the note of the tail.\<close>

definition description_of :: "int list \<Rightarrow> int option \<Rightarrow> int option \<Rightarrow> string" where
  "description_of indices global_start global_end =
     ''Combined locus segments '' @ join '','' (map str_int indices) @
     (if global_start \<noteq> None \<or> global_end \<noteq> None then '' (truncated)'' else [])"

text \<open>\<open>f">{accession}.1:{start_pos}-{end_pos} {description}"\<close>.\<close>

definition header_of :: "string \<Rightarrow> int \<Rightarrow> int \<Rightarrow> string \<Rightarrow> string" where
  "header_of accession start_pos end_pos description =
     ''>'' @ accession @ ''.1:'' @ str_int start_pos @ ''-'' @ str_int end_pos @
     '' '' @ description"

definition combine_segments ::
  "atlas \<Rightarrow> int list \<Rightarrow> int option \<Rightarrow> int option \<Rightarrow> int option \<Rightarrow> int option
     \<Rightarrow> error + (string \<times> string)" where
  "combine_segments self indices global_start global_end poly_a_pos poly_a_count =
     (if indices = [] then Inl NoSegmentsSelected
      else
        (case get_segment self (hd indices) of
           Inl e \<Rightarrow> Inl e
         | Inr first_segment \<Rightarrow>
             (case get_segment self (last indices) of
                Inl e \<Rightarrow> Inl e
              | Inr last_segment \<Rightarrow>
                  (case combine_loop self indices [] of
                     Inl e \<Rightarrow> Inl e
                   | Inr combined_sequence \<Rightarrow>
                       (case apply_truncation self indices first_segment last_segment
                               combined_sequence global_start global_end of
                          Inl e \<Rightarrow> Inl e
                        | Inr (truncated_sequence, start_pos, end_pos) \<Rightarrow>
                            (case apply_poly_a truncated_sequence
                                    (description_of indices global_start global_end)
                                    poly_a_pos poly_a_count of
                               Inl e \<Rightarrow> Inl e
                             | Inr (final_sequence, description) \<Rightarrow>
                                 Inr (header_of
                                        (hd (split_on CHR ''.'' (seg_accession first_segment)))
                                        start_pos end_pos description,
                                      final_sequence)))))))"

subsection \<open>\<open>main\<close>\<close>

text \<open>
  The arguments of a run that combines segments, as \<open>argparse\<close> hands them over: an
  option that was not given is \<open>None\<close>.
\<close>

record args =
  arg_include_locus_segment :: "string option"
  arg_truncate :: "string option"
  arg_polyA :: "string option"

text \<open>
  \<open>main\<close> without \<open>--list\<close>, from the loaded object to the header and the sequence
  that \<open>write_output\<close> receives. A Python string is false when it is empty.
\<close>

definition given :: "string option \<Rightarrow> bool" where
  "given opt \<longleftrightarrow> opt \<noteq> None \<and> opt \<noteq> Some []"

definition main :: "atlas \<Rightarrow> args \<Rightarrow> error + (string \<times> string)" where
  "main self a =
     (if \<not> given (arg_include_locus_segment a) then Inl NoSelectionProvided
      else
        (case parse_segment_selection self (the (arg_include_locus_segment a)) of
           Inl e \<Rightarrow> Inl e
         | Inr selected_indices \<Rightarrow>
             (case (if given (arg_truncate a)
                    then parse_truncation self (the (arg_truncate a)) selected_indices
                    else Inr (None, None, None)) of
                Inl e \<Rightarrow> Inl e
              | Inr (global_start, global_end, poly_a_count_from_truncate) \<Rightarrow>
                  (case (if given (arg_polyA a)
                         then parse_poly_a self (the (arg_polyA a)) selected_indices
                         else if poly_a_count_from_truncate \<noteq> None
                         then Inr (global_end, poly_a_count_from_truncate)
                         else Inr (None, None)) of
                     Inl e \<Rightarrow> Inl e
                   | Inr (poly_a_pos, poly_a_count) \<Rightarrow>
                       combine_segments self selected_indices global_start global_end
                         poly_a_pos poly_a_count))))"

subsection \<open>Inputs of the statements\<close>

text \<open>
  A token of a selection expression, \<open>N\<close> or \<open>A-B\<close>, and the expression a list of
  tokens stands for: the numbers as \<open>str\<close> prints them, the tokens joined by commas.
\<close>

datatype sel_token = Single nat | Range nat nat

fun render_token :: "sel_token \<Rightarrow> string" where
  "render_token (Single n) = str_nat n"
| "render_token (Range a b) = str_nat a @ ''-'' @ str_nat b"

definition selection_expr :: "sel_token list \<Rightarrow> string" where
  "selection_expr ts = join '','' (map render_token ts)"

text \<open>The ids a token refers to.\<close>

fun token_ids :: "sel_token \<Rightarrow> int list" where
  "token_ids (Single n) = [int n]"
| "token_ids (Range a b) = [int a..int b]"

text \<open>
  A token is valid for a catalog of \<open>n\<close> segments when a range is not inverted and
  every id it refers to lies between 1 and \<open>n\<close>.
\<close>

fun token_valid :: "nat \<Rightarrow> sel_token \<Rightarrow> bool" where
  "token_valid n (Single k) = list_all (\<lambda>i. 1 \<le> i \<and> i \<le> int n) (token_ids (Single k))"
| "token_valid n (Range a b) =
     (a \<le> b \<and> list_all (\<lambda>i. 1 \<le> i \<and> i \<le> int n) (token_ids (Range a b)))"

text \<open>The message the parser ends with at a token it refuses.\<close>

fun token_error :: "sel_token \<Rightarrow> error" where
  "token_error (Single n) = InvalidSegmentIndex (render_token (Single n))"
| "token_error (Range a b) = InvalidRangeFormat (render_token (Range a b))"

text \<open>
  A loaded file of two segments of the accession \<open>ACC\<close>, with the reference ranges
  1-100 and 101-300 and the given headers and contents.
\<close>

definition two_segments :: "string \<Rightarrow> string \<Rightarrow> string \<Rightarrow> string \<Rightarrow> atlas" where
  "two_segments h1 c1 h2 c2 =
     \<lparr>segments = [(1, ''ACC'', 1, 100, h1, c1), (2, ''ACC'', 101, 300, h2, c2)],
      segment_data =
        [1 \<mapsto> \<lparr>seg_accession = ''ACC'', seg_start = 1, seg_end = 100,
                 seg_header = h1, seg_sequence = c1\<rparr>,
         2 \<mapsto> \<lparr>seg_accession = ''ACC'', seg_start = 101, seg_end = 300,
                 seg_header = h2, seg_sequence = c2\<rparr>]\<rparr>"

text \<open>
  The same with short contents, of 4 and 8 bases: the file's contents need not have
  the length its headers announce.
\<close>

definition short_atlas :: atlas where
  "short_atlas = two_segments ''>s1:ACC:1-100'' ''ACGT'' ''>s2:ACC:101-300'' ''GGCCTTAA''"

section \<open>Properties\<close>

subsection \<open>Strings and numbers\<close>

lemma split_on_not_Nil: "split_on sep s \<noteq> []"
  by (induction s) (auto split: list.splits)

lemma split_on_absent: "sep \<notin> set s \<Longrightarrow> split_on sep s = [s]"
  by (induction s) auto

lemma split_on_append: "sep \<notin> set x \<Longrightarrow> split_on sep (x @ sep # t) = x # split_on sep t"
  by (induction x) auto

lemma digit_char_is_digit: "is_digit (digit_char n)"
proof -
  have "n mod 10 < length ''0123456789''" by simp
  then have "''0123456789'' ! (n mod 10) \<in> set ''0123456789''" by (rule nth_mem)
  then show ?thesis unfolding is_digit_def digit_char_def .
qed

lemma digit_val_digit_char: "digit_val (digit_char n) = n mod 10"
proof -
  have "n mod 10 < 10" by simp
  then have "n mod 10 = 0 \<or> n mod 10 = 1 \<or> n mod 10 = 2 \<or> n mod 10 = 3 \<or> n mod 10 = 4
      \<or> n mod 10 = 5 \<or> n mod 10 = 6 \<or> n mod 10 = 7 \<or> n mod 10 = 8 \<or> n mod 10 = 9"
    by arith
  then show ?thesis
    unfolding digit_val_def digit_char_def by (elim disjE) simp_all
qed

lemma is_digit_cases: "is_digit c \<Longrightarrow> \<not> is_space c \<and> c \<noteq> CHR ''-'' \<and> c \<noteq> CHR ''+'' \<and> c \<noteq> CHR '':''
   \<and> c \<noteq> CHR ''/'' \<and> c \<noteq> CHR '','' \<and> c \<noteq> CHR ''.''"
  unfolding is_digit_def is_space_def by auto

lemma str_nat_digits: "list_all is_digit (str_nat n)"
proof (induction n rule: str_nat.induct)
  case (1 n)
  then show ?case
    by (subst str_nat.simps) (simp add: digit_char_is_digit)
qed

lemma str_nat_not_Nil: "str_nat n \<noteq> []"
  by (subst str_nat.simps) simp

lemma digits_value_snoc:
  "list_all is_digit ds \<Longrightarrow> is_digit c \<Longrightarrow>
   digits_value acc (ds @ [c]) = map_option (\<lambda>v. v * 10 + digit_val c) (digits_value acc ds)"
  by (induction acc ds rule: digits_value.induct) auto

lemma digits_value_str_nat: "digits_value 0 (str_nat n) = Some n"
proof (induction n rule: str_nat.induct)
  case (1 n)
  show ?case
  proof (cases "n < 10")
    case True
    then show ?thesis
      by (subst str_nat.simps) (simp add: digit_char_is_digit digit_val_digit_char)
  next
    case False
    with 1 have ih: "digits_value 0 (str_nat (n div 10)) = Some (n div 10)" by simp
    from False show ?thesis
      by (subst str_nat.simps)
        (simp add: digits_value_snoc str_nat_digits digit_char_is_digit ih digit_val_digit_char)
  qed
qed

lemma strip_digits: "s \<noteq> [] \<Longrightarrow> list_all is_digit s \<Longrightarrow> strip s = s"
proof -
  assume ne: "s \<noteq> []" and d: "list_all is_digit s"
  from ne d have "\<not> is_space (hd s)" by (cases s) (auto simp: is_digit_cases)
  with ne have a: "dropWhile is_space s = s" by (cases s) auto
  from ne d have "\<not> is_space (last s)"
    by (metis is_digit_cases last_in_set list_all_iff)
  with ne have "dropWhile is_space (rev s) = rev s"
    by (cases "rev s") (auto simp: last_rev hd_rev)
  with a show ?thesis by (simp add: strip_def)
qed

lemma py_int_str_nat: "py_int (str_nat n) = Some (int n)"
proof -
  obtain c cs where s: "str_nat n = c # cs"
    using str_nat_not_Nil by (cases "str_nat n") auto
  have d: "list_all is_digit (c # cs)" using str_nat_digits [of n] s by simp
  then have c: "is_digit c" by simp
  have "strip (c # cs) = c # cs"
    using strip_digits [of "c # cs"] d by simp
  moreover have "unsigned_value (c # cs) = Some n"
    using digits_value_str_nat [of n] c s by (simp add: unsigned_value_def)
  ultimately show ?thesis
    using c s by (simp add: py_int_def is_digit_cases)
qed

lemma str_nat_no_sep:
  "\<not> is_digit c \<Longrightarrow> c \<notin> set (str_nat n)"
  using str_nat_digits [of n] by (auto simp: list_all_iff)


lemma split_on_join:
  "ps \<noteq> [] \<Longrightarrow> list_all (\<lambda>p. sep \<notin> set p) ps \<Longrightarrow> split_on sep (join [sep] ps) = ps"
proof (induction "[sep]" ps rule: join.induct)
  case 1
  then show ?case by simp
next
  case (2 p)
  then show ?case by (simp add: split_on_absent)
next
  case (3 p q ps)
  then show ?case by (simp add: split_on_append)
qed

lemma render_token_no_comma: "CHR '','' \<notin> set (render_token t)"
  by (cases t) (auto simp: str_nat_no_sep is_digit_def)

lemma split_on_selection_expr:
  "ts \<noteq> [] \<Longrightarrow> split_on CHR '','' (selection_expr ts) = map render_token ts"
  unfolding selection_expr_def
  by (rule split_on_join) (simp_all add: list_all_iff render_token_no_comma)

lemma upto_all_bounds:
  "a \<le> b \<Longrightarrow> list_all (\<lambda>i. 1 \<le> i \<and> i \<le> n) [a..b] \<longleftrightarrow> 1 \<le> a \<and> b \<le> n"
  by (auto simp: list_all_iff)

lemma parse_part_render:
  "parse_part self (render_token t) =
     (if token_valid (length (segments self)) t then Inr (token_ids t) else Inl (token_error t))"
proof (cases t)
  case (Single k)
  have "CHR ''-'' \<notin> set (str_nat k)" by (simp add: str_nat_no_sep is_digit_def)
  with Single show ?thesis
    by (auto simp: parse_part_def py_int_str_nat)
next
  case (Range a b)
  have sp: "split_on CHR ''-'' (str_nat a @ ''-'' @ str_nat b) = [str_nat a, str_nat b]"
    by (simp add: split_on_append split_on_absent str_nat_no_sep is_digit_def)
  show ?thesis
  proof (cases "a \<le> b")
    case True
    with Range sp show ?thesis
      by (auto simp: parse_part_def py_int_str_nat upto_all_bounds)
  next
    case False
    with Range sp show ?thesis
      by (auto simp: parse_part_def py_int_str_nat)
  qed
qed

lemma selection_loop_render:
  "selection_loop self (map render_token ts) acc =
     (case find (\<lambda>t. \<not> token_valid (length (segments self)) t) ts of
        None \<Rightarrow> Inr (acc @ concat (map token_ids ts))
      | Some t \<Rightarrow> Inl (token_error t))"
  by (induction ts arbitrary: acc) (simp_all add: parse_part_render split: option.splits)

subsection \<open>The selection parser\<close>

text \<open>
  C7: for every selection expression of comma-separated tokens, each a single id \<open>N\<close>
  or a range \<open>A-B\<close>, \<open>parse_segment_selection\<close> returns the referenced ids without
  duplicates and in ascending order when every token is valid (no range is inverted, and
  every referenced id lies between 1 and the number of segments), and otherwise ends with
  the error message for the first token that is not. The instance that follows has the
  inverted range \<open>2-1\<close> and the selection \<open>5\<close> for two segments, which both fail.
\<close>

theorem parse_segment_selection_tokens:
  assumes "ts \<noteq> []"
  shows "parse_segment_selection self (selection_expr ts) =
     (case find (\<lambda>t. \<not> token_valid (length (segments self)) t) ts of
        None \<Rightarrow> Inr (sorted_list_of_set (set (concat (map token_ids ts))))
      | Some t \<Rightarrow> Inl (token_error t))"
  using assms
  by (simp add: parse_segment_selection_def split_on_selection_expr selection_loop_render
      split: option.splits)


theorem parse_segment_selection_tokens_witness:
  "parse_segment_selection short_atlas ''2,1-2,1'' = Inr [1, 2] \<and>
   parse_segment_selection short_atlas ''2-1'' = Inl (InvalidRangeFormat ''2-1'') \<and>
   parse_segment_selection short_atlas ''5'' = Inl (InvalidSegmentIndex ''5'')"
proof -
  have e1: "selection_expr [Single 2, Range 1 2, Single 1] = ''2,1-2,1''" by code_simp
  have e2: "selection_expr [Range 2 1] = ''2-1''" by code_simp
  have e3: "selection_expr [Single 5] = ''5''" by code_simp
  have n: "length (segments short_atlas) = 2" by (simp add: short_atlas_def two_segments_def)
  have r1: "(case find (\<lambda>t. \<not> token_valid 2 t) [Single 2, Range 1 2, Single 1] of
        None \<Rightarrow> Inr (sorted_list_of_set (set (concat (map token_ids [Single 2, Range 1 2, Single 1]))))
      | Some t \<Rightarrow> Inl (token_error t)) = Inr [1, 2]" by code_simp
  have r2: "(case find (\<lambda>t. \<not> token_valid 2 t) [Range 2 1] of
        None \<Rightarrow> Inr (sorted_list_of_set (set (concat (map token_ids [Range 2 1]))))
      | Some t \<Rightarrow> Inl (token_error t)) = Inl (InvalidRangeFormat ''2-1'')" by code_simp
  have r3: "(case find (\<lambda>t. \<not> token_valid 2 t) [Single 5] of
        None \<Rightarrow> Inr (sorted_list_of_set (set (concat (map token_ids [Single 5]))))
      | Some t \<Rightarrow> Inl (token_error t)) = Inl (InvalidSegmentIndex ''5'')" by code_simp
  show ?thesis
    using parse_segment_selection_tokens [of "[Single 2, Range 1 2, Single 1]" short_atlas]
      parse_segment_selection_tokens [of "[Range 2 1]" short_atlas]
      parse_segment_selection_tokens [of "[Single 5]" short_atlas]
    unfolding e1 e2 e3 n r1 r2 r3 by simp
qed

subsection \<open>Combining the selected segments\<close>

lemma get_segment_Inr: "get_segment self i = Inr s \<longleftrightarrow> segment_data self i = Some s"
  by (simp add: get_segment_def split: option.splits)

lemma combine_loop_loaded:
  "combine_loop self idx acc = Inr c \<Longrightarrow> i \<in> set idx \<Longrightarrow> \<exists>s. get_segment self i = Inr s"
  by (induction idx arbitrary: acc) (auto split: sum.splits)

lemma prefix_length_loaded:
  "combine_loop self idx acc = Inr c \<Longrightarrow> \<exists>n. prefix_length self idx k = Inr n \<and> 0 \<le> n"
  by (induction idx arbitrary: acc) (auto split: sum.splits)

lemma find_start_segment_loaded:
  "combine_loop self idx acc = Inr c \<Longrightarrow>
   \<exists>j cum'. find_start_segment self idx i cum g = Inr (j, cum') \<and> (j = 0 \<or> j < i + length idx)"
proof (induction idx arbitrary: acc i cum)
  case Nil
  then show ?case by simp
next
  case (Cons x idx)
  then obtain s where s: "get_segment self x = Inr s"
    and l: "combine_loop self idx (acc @ seg_sequence s) = Inr c"
    by (auto split: sum.splits)
  from Cons.IH [OF l, of "Suc i" "cum + int (length (seg_sequence s))"] s
  show ?case by auto
qed

lemma find_end_segment_loaded:
  "combine_loop self idx acc = Inr c \<Longrightarrow>
   \<exists>j cum'. find_end_segment self idx i cum g = Inr (j, cum') \<and> (j = 0 \<or> j < i + length idx)"
proof (induction idx arbitrary: acc i cum)
  case Nil
  then show ?case by simp
next
  case (Cons x idx)
  then obtain s where s: "get_segment self x = Inr s"
    and l: "combine_loop self idx (acc @ seg_sequence s) = Inr c"
    by (auto split: sum.splits)
  from Cons.IH [OF l, of "Suc i" "cum + int (length (seg_sequence s))"] s
  show ?case by auto
qed

lemma header_start_pos_loaded:
  assumes "combine_loop self idx acc = Inr c" and "idx \<noteq> []"
  shows "\<exists>p. header_start_pos self idx g = Inr p"
proof -
  from find_start_segment_loaded [OF assms(1), of 0 0 g]
  obtain j cum' where f: "find_start_segment self idx 0 0 g = Inr (j, cum')"
    and j: "j = 0 \<or> j < length idx" by auto
  from j assms(2) have jl: "j < length idx" by auto
  then have "idx ! j \<in> set idx" by simp
  from combine_loop_loaded [OF assms(1) this]
  obtain s where "get_segment self (idx ! j) = Inr s" ..
  with f jl show ?thesis by (simp add: header_start_pos_def py_index_def)
qed

lemma header_end_pos_loaded:
  assumes "combine_loop self idx acc = Inr c" and "idx \<noteq> []"
  shows "\<exists>p. header_end_pos self idx g = Inr p"
proof -
  from find_end_segment_loaded [OF assms(1), of 0 0 g]
  obtain j cum' where f: "find_end_segment self idx 0 0 g = Inr (j, cum')"
    and j: "j = 0 \<or> j < length idx" by auto
  from j assms(2) have jl: "j < length idx" by auto
  then have "idx ! j \<in> set idx" by simp
  from combine_loop_loaded [OF assms(1) this]
  obtain s where "get_segment self (idx ! j) = Inr s" ..
  with f jl show ?thesis by (simp add: header_end_pos_def py_index_def)
qed

lemma py_slice_in_range:
  "0 \<le> a \<Longrightarrow> b \<le> int (length s) \<Longrightarrow> a < b \<Longrightarrow> py_slice s a b = drop (nat a) (take (nat b) s)"
proof -
  assume a: "0 \<le> a" and b: "b \<le> int (length s)" and ab: "a < b"
  then have "nat b \<le> length s" "nat a \<le> length s" by linarith+
  with a ab show ?thesis by (simp add: py_slice_def slice_bound_def min_def)
qed

text \<open>The truncation step once every selected segment is loaded.\<close>

lemma apply_truncation_loaded:
  fixes comb :: string
  assumes "combine_loop self idx acc = Inr c" and "idx \<noteq> []"
    and "gs \<noteq> None \<or> ge \<noteq> None"
  defines "s \<equiv> (case gs of None \<Rightarrow> 0 | Some g \<Rightarrow> g)"
    and "e \<equiv> (case ge of None \<Rightarrow> int (length comb) | Some g \<Rightarrow> g)"
  shows "\<exists>sp ep. apply_truncation self idx fs ls comb gs ge =
     (if 0 \<le> s \<and> s < e \<and> e \<le> int (length comb)
      then Inr (drop (nat s) (take (nat e) comb), sp, ep)
      else Inl (InvalidTruncationRange s e))"
proof (cases "0 \<le> s \<and> s < e \<and> e \<le> int (length comb)")
  case False
  with assms(3) show ?thesis
    unfolding apply_truncation_def s_def e_def by (auto simp: Let_def)
next
  case True
  obtain sp where sp: "(case gs of None \<Rightarrow> Inr (seg_start fs)
      | Some g \<Rightarrow> header_start_pos self idx g) = Inr sp"
    using header_start_pos_loaded [OF assms(1,2)] by (cases gs) auto
  obtain ep where ep: "(case ge of None \<Rightarrow> Inr (seg_end ls)
      | Some g \<Rightarrow> header_end_pos self idx g) = Inr ep"
    using header_end_pos_loaded [OF assms(1,2)] by (cases ge) auto
  from True have sl: "py_slice comb s e = drop (nat s) (take (nat e) comb)"
    by (simp add: py_slice_in_range)
  from True assms(3) sp ep sl show ?thesis
    unfolding apply_truncation_def Let_def s_def [symmetric] e_def [symmetric]
    by (intro exI [of _ sp] exI [of _ ep]) (simp add: not_less not_le)
qed


lemma apply_poly_a_absent: "apply_poly_a s d None None = Inr (s, d)"
  by (simp add: apply_poly_a_def)

lemma apply_poly_a_not_truncation: "apply_poly_a s d pp pc \<noteq> Inl (InvalidTruncationRange x y)"
  by (simp add: apply_poly_a_def split: option.splits)

lemma combine_segments_with_tail:
  assumes "combine_segments self idx gs ge None None = Inr (h, s)"
  shows "combine_segments self idx gs ge (Some pos) (Some n) =
     (if pos > int (length s) then Inl (PolyABeyondSequence pos (length s))
      else Inr (h @ '' (with '' @ str_int n @ '' polyA tail)'',
                py_slice_to s pos @ replicate (nat n) CHR ''A''))"
  using assms
  by (auto simp: combine_segments_def apply_poly_a_def header_of_def
      split: if_splits sum.splits)

lemma combine_segments_truncation:
  fixes comb :: string
  assumes "combine_loop self idx [] = Inr comb" and "idx \<noteq> []"
    and "gs \<noteq> None \<or> ge \<noteq> None"
  defines "s \<equiv> (case gs of None \<Rightarrow> 0 | Some g \<Rightarrow> g)"
    and "e \<equiv> (case ge of None \<Rightarrow> int (length comb) | Some g \<Rightarrow> g)"
  shows "(combine_segments self idx gs ge pp pc = Inl (InvalidTruncationRange s e)) \<longleftrightarrow>
           \<not> (0 \<le> s \<and> s < e \<and> e \<le> int (length comb))"
    and "0 \<le> s \<and> s < e \<and> e \<le> int (length comb) \<Longrightarrow>
           \<exists>h. combine_segments self idx gs ge None None =
             Inr (h, drop (nat s) (take (nat e) comb))"
proof -
  from combine_loop_loaded [OF assms(1), of "hd idx"] assms(2)
  obtain fs where fs: "get_segment self (hd idx) = Inr fs" by auto
  from combine_loop_loaded [OF assms(1), of "last idx"] assms(2)
  obtain ls where ls: "get_segment self (last idx) = Inr ls" by auto
  from apply_truncation_loaded [OF assms(1,2,3), of fs ls comb]
  obtain sp ep where t: "apply_truncation self idx fs ls comb gs ge =
     (if 0 \<le> s \<and> s < e \<and> e \<le> int (length comb)
      then Inr (drop (nat s) (take (nat e) comb), sp, ep)
      else Inl (InvalidTruncationRange s e))"
    unfolding s_def e_def by blast
  show "(combine_segments self idx gs ge pp pc = Inl (InvalidTruncationRange s e)) \<longleftrightarrow>
           \<not> (0 \<le> s \<and> s < e \<and> e \<le> int (length comb))"
    using assms(1,2) fs ls t
    by (auto simp: combine_segments_def apply_poly_a_not_truncation split: sum.splits)
  show "\<exists>h. combine_segments self idx gs ge None None =
             Inr (h, drop (nat s) (take (nat e) comb))"
    if "0 \<le> s \<and> s < e \<and> e \<le> int (length comb)"
    using that assms(1,2) fs ls t
    by (simp add: combine_segments_def apply_poly_a_absent)
qed


lemma combine_loop_short: "combine_loop short_atlas [1, 2] [] = Inr ''ACGTGGCCTTAA''"
  by (simp add: short_atlas_def two_segments_def get_segment_def)

lemma str_int_0: "str_int 0 = ''0''" by code_simp

lemma parse_poly_a_zero: "parse_poly_a self ''0/0'' sel = Inr (Some 0, Some 0)"
proof -
  have "py_int ''0'' = Some 0" by code_simp
  then show ?thesis by (simp add: parse_poly_a_def)
qed

lemma str_int_3: "str_int 3 = ''3''"
  by code_simp

lemma combine_short_first:
  "combine_segments short_atlas [1] None None None None =
     Inr (''>ACC.1:1-100 Combined locus segments 1'', ''ACGT'')"
  by code_simp

subsection \<open>The truncation step\<close>

text \<open>
  C6: when a start or an end is given, with a start that is not given standing for 0 and
  an end that is not given for the length of the combined sequence, \<open>combine_segments\<close>
  ends with the message of an invalid truncation range exactly when the bounds violate
  \<open>0 \<le> start < end \<le> length\<close>, whatever the tail; when they hold, the sequence it returns
  without a tail is the slice of the combined sequence from start up to, not including,
  end. Every selected segment is loaded.
\<close>

theorem truncation_step_bounds:
  fixes comb :: string
  assumes "combine_loop self idx [] = Inr comb" and "idx \<noteq> []"
    and "gs \<noteq> None \<or> ge \<noteq> None"
  defines "s \<equiv> (case gs of None \<Rightarrow> 0 | Some g \<Rightarrow> g)"
    and "e \<equiv> (case ge of None \<Rightarrow> int (length comb) | Some g \<Rightarrow> g)"
  shows "((combine_segments self idx gs ge pp pc = Inl (InvalidTruncationRange s e)) \<longleftrightarrow>
            \<not> (0 \<le> s \<and> s < e \<and> e \<le> int (length comb))) \<and>
         (0 \<le> s \<and> s < e \<and> e \<le> int (length comb) \<longrightarrow>
            (\<exists>h. combine_segments self idx gs ge None None =
               Inr (h, drop (nat s) (take (nat e) comb))))"
  using combine_segments_truncation [OF assms(1,2,3)] unfolding s_def e_def by blast

theorem truncation_step_bounds_witness:
  "combine_loop short_atlas [1, 2] [] = Inr ''ACGTGGCCTTAA'' \<and>
   combine_segments short_atlas [1, 2] (Some 7) (Some 5) None None =
     Inl (InvalidTruncationRange 7 5) \<and>
   combine_segments short_atlas [1, 2] None (Some 13) None None =
     Inl (InvalidTruncationRange 0 13) \<and>
   (\<exists>h. combine_segments short_atlas [1, 2] (Some 5) None None None = Inr (h, ''GCCTTAA'')) \<and>
   (\<exists>h. combine_segments short_atlas [1, 2] (Some 5) (Some 7) None None = Inr (h, ''GC''))"
  using truncation_step_bounds [OF combine_loop_short, of "Some 7" "Some 5" None None]
    truncation_step_bounds [OF combine_loop_short, of None "Some 13" None None]
    truncation_step_bounds [OF combine_loop_short, of "Some 5" None None None]
    truncation_step_bounds [OF combine_loop_short, of "Some 5" "Some 7" None None]
    combine_loop_short
  by simp

subsection \<open>The polyA tail\<close>

text \<open>
  C4: when \<open>combine_segments\<close> without a tail returns the sequence \<open>s\<close>, then with a
  tail at \<open>pos\<close>, \<open>0 \<le> pos \<le> length s\<close>, of \<open>n \<ge> 0\<close> characters it returns a sequence of
  length \<open>pos + n\<close> whose first \<open>pos\<close> characters are those of \<open>s\<close> and whose other
  \<open>n\<close> characters are all \<open>A\<close>: what \<open>s\<close> had behind \<open>pos\<close> is replaced. The
  header gains the note of the tail.
\<close>

theorem tail_append_shape:
  assumes "combine_segments self idx gs ge None None = Inr (h, s)"
    and "0 \<le> pos" and "pos \<le> int (length s)" and "0 \<le> n"
  shows "\<exists>out. combine_segments self idx gs ge (Some pos) (Some n) =
            Inr (h @ '' (with '' @ str_int n @ '' polyA tail)'', out) \<and>
          int (length out) = pos + n \<and>
          take (nat pos) out = take (nat pos) s \<and>
          drop (nat pos) out = replicate (nat n) CHR ''A'' \<and>
          out = take (nat pos) s @ replicate (nat n) CHR ''A''"
proof -
  from assms(2,3) have le: "nat pos \<le> length s" by linarith
  then have l: "length (take (nat pos) s) = nat pos" by simp
  from assms(2) le have b: "py_slice_to s pos = take (nat pos) s"
    by (simp add: py_slice_to_def slice_bound_def min_def)
  have "combine_segments self idx gs ge (Some pos) (Some n) =
          Inr (h @ '' (with '' @ str_int n @ '' polyA tail)'',
               take (nat pos) s @ replicate (nat n) CHR ''A'')"
    using combine_segments_with_tail [OF assms(1), of pos n] assms(3) b by simp
  moreover have "int (length (take (nat pos) s @ replicate (nat n) CHR ''A'')) = pos + n"
    using assms(2,4) l by simp
  moreover have "take (nat pos) (take (nat pos) s @ replicate (nat n) CHR ''A'') = take (nat pos) s"
    using l by simp
  moreover have "drop (nat pos) (take (nat pos) s @ replicate (nat n) CHR ''A'')
      = replicate (nat n) CHR ''A''"
    using l by simp
  ultimately show ?thesis by blast
qed

theorem tail_append_shape_witness:
  "combine_segments short_atlas [1] None None (Some 2) (Some 3) =
     Inr (''>ACC.1:1-100 Combined locus segments 1 (with 3 polyA tail)'', ''ACAAA'')"
  using tail_append_shape [OF combine_short_first, of 2 3]
  by (simp add: str_int_3 eval_nat_numeral)

text \<open>
  C3, as the code has it: the tail \<open>0/0\<close> is parsed to the position 0 and the count 0 and
  is not an error, but the sequence \<open>combine_segments\<close> then returns is empty, not the
  one it returns without the tail; the header gains the note \<open>(with 0 polyA tail)\<close>. In
  the run on the short file the sequence \<open>ACGT\<close> becomes the empty sequence, so the
  sequence is not left unchanged.
\<close>

theorem zero_tail_empties:
  assumes "combine_segments self idx gs ge None None = Inr (h, s)"
  shows "parse_poly_a self ''0/0'' sel = Inr (Some 0, Some 0) \<and>
         combine_segments self idx gs ge (Some 0) (Some 0) =
           Inr (h @ '' (with 0 polyA tail)'', [])"
  using combine_segments_with_tail [OF assms, of 0 0]
  by (simp add: parse_poly_a_zero str_int_0 py_slice_to_def slice_bound_def)

theorem zero_tail_empties_witness:
  "parse_poly_a short_atlas ''0/0'' [1] = Inr (Some 0, Some 0) \<and>
   combine_segments short_atlas [1] None None (Some 0) (Some 0) =
     Inr (''>ACC.1:1-100 Combined locus segments 1 (with 0 polyA tail)'', [])"
  using zero_tail_empties [OF combine_short_first, where sel = "[1]"]
  by simp

theorem zero_tail_counterexample:
  "main short_atlas \<lparr>arg_include_locus_segment = Some ''1'', arg_truncate = None,
                     arg_polyA = None\<rparr> =
     Inr (''>ACC.1:1-100 Combined locus segments 1'', ''ACGT'') \<and>
   main short_atlas \<lparr>arg_include_locus_segment = Some ''1'', arg_truncate = None,
                     arg_polyA = Some ''0/0''\<rparr> =
     Inr (''>ACC.1:1-100 Combined locus segments 1 (with 0 polyA tail)'', [])"
  by code_simp

text \<open>
  C5: a position of the tail outside \<open>0 \<le> pos \<le> length\<close> is to be refused.
  \<open>combine_segments\<close> tests \<open>pos > length\<close> only, so a negative position is taken as
  a slice bound counted from the end: the run with \<open>--polyA=-1/2\<close> on the short file
  succeeds, drops the last base and appends two A's.
\<close>

theorem negative_cut_accepted:
  "main short_atlas \<lparr>arg_include_locus_segment = Some ''1'', arg_truncate = None,
                     arg_polyA = Some ''-1/2''\<rparr> =
     Inr (''>ACC.1:1-100 Combined locus segments 1 (with 2 polyA tail)'', ''ACGAA'')"
  by code_simp

subsection \<open>Truncation and tail expressions\<close>

text \<open>
  What the parsers return on an expression whose numbers are printed as \<open>str\<close> prints
  them.
\<close>

lemma str_nat_seps:
  "CHR '':'' \<notin> set (str_nat n)" "CHR ''-'' \<notin> set (str_nat n)" "CHR ''/'' \<notin> set (str_nat n)"
  by (simp_all add: str_nat_no_sep is_digit_def)

lemma unpack_two_ints_render:
  "unpack_two_ints (split_on CHR '':'' (str_nat a @ '':'' @ str_nat b)) = Some (int a, int b)"
  by (simp add: split_on_append split_on_absent str_nat_seps py_int_str_nat)

lemma digits_value_total: "list_all is_digit s \<Longrightarrow> \<exists>v. digits_value acc s = Some v"
  by (induction acc s rule: digits_value.induct) auto

lemma py_int_isdigit: "isdigit s \<Longrightarrow> \<exists>v. py_int s = Some v"
proof -
  assume d: "isdigit s"
  then obtain c cs where s: "s = c # cs" by (cases s) (auto simp: isdigit_def)
  from d s have c: "is_digit c" and a: "list_all is_digit (c # cs)" by (auto simp: isdigit_def)
  from a have st: "strip (c # cs) = c # cs" by (intro strip_digits) simp_all
  from digits_value_total [OF a, of 0] obtain v where "digits_value 0 (c # cs) = Some v" ..
  with c st s show ?thesis
    by (simp add: py_int_def unsigned_value_def is_digit_cases)
qed

lemma parse_truncation_range_render:
  "parse_truncation self (str_nat a @ '':'' @ str_nat p @ ''-'' @ str_nat b @ '':'' @ str_nat q) sel =
     (if int a \<notin> set sel \<or> int b \<notin> set sel then Inl TruncationSegmentsNotSelected
      else
        (case prefix_length self sel (int a) of
           Inl e \<Rightarrow> Inl e
         | Inr global_start \<Rightarrow>
             (case prefix_length self sel (int b) of
                Inl e \<Rightarrow> Inl e
              | Inr global_end \<Rightarrow>
                  Inr (Some (global_start + (int p - 1)), Some (global_end + int q), None))))"
proof -
  have sp: "split_on CHR ''-'' ((str_nat a @ '':'' @ str_nat p) @ CHR ''-'' # (str_nat b @ '':'' @ str_nat q))
      = [str_nat a @ '':'' @ str_nat p, str_nat b @ '':'' @ str_nat q]"
    by (subst split_on_append) (simp_all add: str_nat_seps split_on_absent)
  show ?thesis
    using sp unpack_two_ints_render [of a p] unpack_two_ints_render [of b q]
    by (simp add: parse_truncation_def parse_truncation_range_def)
qed

lemma parse_truncation_cut_render:
  assumes "CHR ''-'' \<notin> set t"
  shows "\<exists>count. parse_truncation self (str_nat c @ '':'' @ str_nat p @ ''/'' @ t) sel =
     (if int c \<notin> set sel then Inl TruncationSegmentNotSelected
      else
        (case prefix_length self sel (int c) of
           Inl e \<Rightarrow> Inl e
         | Inr global_pos \<Rightarrow> Inr (None, Some (global_pos + int p), count)))"
proof -
  have sp: "split_on CHR ''/'' ((str_nat c @ '':'' @ str_nat p) @ CHR ''/'' # t)
      = (str_nat c @ '':'' @ str_nat p) # split_on CHR ''/'' t"
    by (subst split_on_append) (simp_all add: str_nat_seps)
  obtain r rs where r: "split_on CHR ''/'' t = r # rs"
    using split_on_not_Nil [of "CHR ''/''" t] by (cases "split_on CHR ''/'' t") auto
  obtain count where count: "(if r \<noteq> [] \<and> isdigit r then map_option Some (py_int r) else Some None)
      = Some count"
    using py_int_isdigit [of r] by (cases "r \<noteq> [] \<and> isdigit r") auto
  show ?thesis
    using assms sp r count unpack_two_ints_render [of c p]
    by (intro exI [of _ count])
      (simp add: parse_truncation_def parse_truncation_cut_def str_nat_seps)
qed

lemma parse_truncation_bare_render:
  "parse_truncation self (str_nat c @ '':'' @ str_nat p) sel =
     (if int c \<notin> set sel then Inl TruncationSegmentNotSelected
      else
        (case prefix_length self sel (int c) of
           Inl e \<Rightarrow> Inl e
         | Inr global_pos \<Rightarrow> Inr (None, Some (global_pos + int p), None)))"
  using unpack_two_ints_render [of c p]
  by (simp add: parse_truncation_def parse_truncation_bare_def str_nat_seps)

lemma parse_poly_a_render:
  "parse_poly_a self (str_nat c @ '':'' @ str_nat p @ ''/'' @ str_nat n) sel =
     (if int c \<notin> set sel then Inl PolyASegmentNotSelected
      else
        (case get_segment self (int c) of
           Inl e \<Rightarrow> Inl e
         | Inr s \<Rightarrow>
             if int p > int (length (seg_sequence s))
             then Inl (PositionBeyondSegment (int p) (int c) (length (seg_sequence s)))
             else
               (case poly_a_loop self sel (int c) (int p) 0 of
                  Inl e \<Rightarrow> Inl e
                | Inr global_pos \<Rightarrow> Inr (Some global_pos, Some (int n)))))"
proof -
  have sp: "split_on CHR ''/'' ((str_nat c @ '':'' @ str_nat p) @ CHR ''/'' # str_nat n)
      = [str_nat c @ '':'' @ str_nat p, str_nat n]"
    by (subst split_on_append) (simp_all add: str_nat_seps split_on_absent)
  show ?thesis
    using sp unpack_two_ints_render [of c p]
    by (simp add: parse_poly_a_def py_int_str_nat)
qed

lemma seg1_short:
  "segment_data short_atlas (int 1) =
     Some \<lparr>seg_accession = ''ACC'', seg_start = 1, seg_end = 100,
           seg_header = ''>s1:ACC:1-100'', seg_sequence = ''ACGT''\<rparr>"
  by (simp add: short_atlas_def two_segments_def)

text \<open>
  C8: a truncation or tail expression that names a segment id outside the selection ends
  with the message that the segment must be included in the selected segments: the range
  form \<open>a:p-b:q\<close> when \<open>a\<close> or \<open>b\<close> is not selected, the cut form \<open>c:p/...\<close> with
  anything that has no \<open>-\<close> behind the \<open>/\<close>, the bare form \<open>c:p\<close> and the tail
  \<open>c:p/n\<close> when \<open>c\<close> is not selected.
\<close>

theorem unselected_segment_refused:
  assumes "int a \<notin> set sel \<or> int b \<notin> set sel" and "int c \<notin> set sel"
    and "CHR ''-'' \<notin> set t"
  shows "parse_truncation self
           (str_nat a @ '':'' @ str_nat p @ ''-'' @ str_nat b @ '':'' @ str_nat q) sel =
           Inl TruncationSegmentsNotSelected \<and>
         parse_truncation self (str_nat c @ '':'' @ str_nat p @ ''/'' @ t) sel =
           Inl TruncationSegmentNotSelected \<and>
         parse_truncation self (str_nat c @ '':'' @ str_nat p) sel =
           Inl TruncationSegmentNotSelected \<and>
         parse_poly_a self (str_nat c @ '':'' @ str_nat p @ ''/'' @ str_nat n) sel =
           Inl PolyASegmentNotSelected"
  using assms parse_truncation_cut_render [OF assms(3), of self c p sel]
    parse_truncation_range_render [of self a p b q sel]
    parse_truncation_bare_render [of self c p sel]
    parse_poly_a_render [of self c p n sel]
  by simp

theorem unselected_segment_refused_witness:
  "parse_truncation short_atlas ''1:2-2:3'' [1] = Inl TruncationSegmentsNotSelected \<and>
   parse_truncation short_atlas ''2:2/10'' [1] = Inl TruncationSegmentNotSelected \<and>
   parse_truncation short_atlas ''2:2'' [1] = Inl TruncationSegmentNotSelected \<and>
   parse_poly_a short_atlas ''2:2/5'' [1] = Inl PolyASegmentNotSelected"
proof -
  have s1: "str_nat 1 @ '':'' @ str_nat 2 @ ''-'' @ str_nat 2 @ '':'' @ str_nat 3 = ''1:2-2:3''"
    by code_simp
  have s2: "str_nat 2 @ '':'' @ str_nat 2 @ ''/'' @ ''10'' = ''2:2/10''" by code_simp
  have s3: "str_nat 2 @ '':'' @ str_nat 2 = ''2:2''" by code_simp
  have s4: "str_nat 2 @ '':'' @ str_nat 2 @ ''/'' @ str_nat 5 = ''2:2/5''" by code_simp
  show ?thesis
    using unselected_segment_refused [where a = 1 and b = 2 and c = 2 and sel = "[1]"
        and t = "''10''" and self = short_atlas and p = 2 and q = 3 and n = 5]
    unfolding s1 s2 s3 s4 by simp
qed

text \<open>
  C9: in the range form \<open>a:p-b:q\<close> with both segments selected and every selected
  segment loaded, \<open>parse_truncation\<close> returns the two offsets with no test of \<open>p\<close> or
  \<open>q\<close> against the length of a segment, and \<open>combine_segments\<close> returns the slice
  whenever the offsets satisfy \<open>0 \<le> start < end \<le> length\<close>. In the witness \<open>p = 6\<close>
  is beyond the 4 bases of segment 1, and the kept bases are those of segment 2.
\<close>

theorem range_positions_unchecked:
  assumes "combine_loop self sel [] = Inr comb"
    and "int a \<in> set sel" and "int b \<in> set sel"
  shows "\<exists>pa pb. prefix_length self sel (int a) = Inr pa \<and>
           prefix_length self sel (int b) = Inr pb \<and>
           parse_truncation self
             (str_nat a @ '':'' @ str_nat p @ ''-'' @ str_nat b @ '':'' @ str_nat q) sel =
             Inr (Some (pa + (int p - 1)), Some (pb + int q), None) \<and>
           (0 \<le> pa + (int p - 1) \<and> pa + (int p - 1) < pb + int q \<and>
            pb + int q \<le> int (length comb) \<longrightarrow>
              (\<exists>h. combine_segments self sel (Some (pa + (int p - 1))) (Some (pb + int q))
                     None None =
                 Inr (h, drop (nat (pa + (int p - 1))) (take (nat (pb + int q)) comb))))"
proof -
  from prefix_length_loaded [OF assms(1), of "int a"]
  obtain pa where pa: "prefix_length self sel (int a) = Inr pa" by blast
  from prefix_length_loaded [OF assms(1), of "int b"]
  obtain pb where pb: "prefix_length self sel (int b) = Inr pb" by blast
  from assms(2) have ne: "sel \<noteq> []" by auto
  have t: "parse_truncation self
             (str_nat a @ '':'' @ str_nat p @ ''-'' @ str_nat b @ '':'' @ str_nat q) sel =
             Inr (Some (pa + (int p - 1)), Some (pb + int q), None)"
    using parse_truncation_range_render [of self a p b q sel] assms(2,3) pa pb by simp
  have c: "\<exists>h. combine_segments self sel (Some (pa + (int p - 1))) (Some (pb + int q))
                     None None =
                 Inr (h, drop (nat (pa + (int p - 1))) (take (nat (pb + int q)) comb))"
    if "0 \<le> pa + (int p - 1) \<and> pa + (int p - 1) < pb + int q \<and>
            pb + int q \<le> int (length comb)"
    using combine_segments_truncation(2) [OF assms(1) ne,
        of "Some (pa + (int p - 1))" "Some (pb + int q)"] that by simp
  from pa pb t c show ?thesis by blast
qed

theorem range_positions_unchecked_witness:
  "parse_truncation short_atlas ''1:6-2:3'' [1, 2] = Inr (Some 5, Some 7, None) \<and>
   (\<exists>h. combine_segments short_atlas [1, 2] (Some 5) (Some 7) None None = Inr (h, ''GC'')) \<and>
   map_option (\<lambda>s. length (seg_sequence s)) (segment_data short_atlas 1) = Some 4"
proof -
  have s: "str_nat 1 @ '':'' @ str_nat 6 @ ''-'' @ str_nat 2 @ '':'' @ str_nat 3 = ''1:6-2:3''"
    by code_simp
  have pa: "prefix_length short_atlas [1, 2] (int 1) = Inr 0"
    by (simp add: short_atlas_def two_segments_def get_segment_def)
  have pb: "prefix_length short_atlas [1, 2] (int 2) = Inr 4"
    by (simp add: short_atlas_def two_segments_def get_segment_def)
  have l: "map_option (\<lambda>s. length (seg_sequence s)) (segment_data short_atlas 1) = Some 4"
    by (simp add: short_atlas_def two_segments_def)
  show ?thesis
    using range_positions_unchecked [OF combine_loop_short, where a = 1 and b = 2
        and p = 6 and q = 3]
    unfolding s pa pb using l by auto
qed

text \<open>
  C10: the tail \<open>seg:pos/n\<close> with a selected, loaded segment ends with the message that
  the position is beyond the length of the segment whenever \<open>pos\<close> exceeds the length of
  its content. In the witness the offset 5 is refused as \<open>1:5/2\<close> although the combined
  sequence has 12 bases and the same offset given as \<open>5/2\<close> is accepted.
\<close>

theorem tail_position_beyond_segment:
  assumes "segment_data self (int seg) = Some s" and "int seg \<in> set sel"
    and "int pos > int (length (seg_sequence s))"
  shows "parse_poly_a self (str_nat seg @ '':'' @ str_nat pos @ ''/'' @ str_nat n) sel =
           Inl (PositionBeyondSegment (int pos) (int seg) (length (seg_sequence s)))"
  using assms parse_poly_a_render [of self seg pos n sel]
  by (simp add: get_segment_def)

theorem tail_position_beyond_segment_witness:
  "parse_poly_a short_atlas ''1:5/2'' [1, 2] = Inl (PositionBeyondSegment 5 1 4) \<and>
   parse_poly_a short_atlas ''5/2'' [1, 2] = Inr (Some 5, Some 2) \<and>
   combine_segments short_atlas [1, 2] None None (Some 5) (Some 2) =
     Inr (''>ACC.1:1-300 Combined locus segments 1,2 (with 2 polyA tail)'', ''ACGTGAA'')"
proof -
  have s: "str_nat 1 @ '':'' @ str_nat 5 @ ''/'' @ str_nat 2 = ''1:5/2''" by code_simp
  have a: "parse_poly_a short_atlas ''5/2'' [1, 2] = Inr (Some 5, Some 2)" by code_simp
  have b: "combine_segments short_atlas [1, 2] None None (Some 5) (Some 2) =
     Inr (''>ACC.1:1-300 Combined locus segments 1,2 (with 2 polyA tail)'', ''ACGTGAA'')"
    by code_simp
  show ?thesis
    using tail_position_beyond_segment [OF seg1_short, where pos = 5 and n = 2 and sel = "[1, 2]"]
    unfolding s using a b by simp
qed

subsection \<open>From a segment's bases to offsets and back\<close>

lemma prefix_length_nonneg: "prefix_length self xs k = Inr n \<Longrightarrow> 0 \<le> n"
  by (induction xs arbitrary: n) (auto split: if_splits sum.splits)

lemma prefix_length_none: "\<forall>y\<in>set ys. \<not> y < k \<Longrightarrow> prefix_length self ys k = Inr 0"
  by (induction ys) auto

lemma prefix_length_split:
  "\<forall>y\<in>set ys. \<not> y < k \<Longrightarrow> prefix_length self (xs @ k # ys) k = prefix_length self xs k"
  by (induction xs) (auto simp: prefix_length_none split: sum.splits)

lemma find_start_segment_at:
  assumes "\<forall>x\<in>set xs. x < k" and "prefix_length self xs k = Inr n"
    and "get_segment self k = Inr s" and "seg_sequence s \<noteq> []"
  shows "find_start_segment self (xs @ k # ys) i cum (cum + n) = Inr (i + length xs, cum + n)"
  using assms(1,2)
proof (induction xs arbitrary: i cum n)
  case Nil
  with assms(3,4) show ?case by simp
next
  case (Cons x xs)
  from Cons.prems obtain sx m where sx: "get_segment self x = Inr sx"
    and m: "prefix_length self xs k = Inr m"
    and n: "n = int (length (seg_sequence sx)) + m"
    by (auto split: sum.splits)
  from prefix_length_nonneg [OF m] have m0: "0 \<le> m" .
  from Cons.prems(1) have lt: "\<forall>x\<in>set xs. x < k" by simp
  from Cons.IH [OF lt m, of "Suc i" "cum + int (length (seg_sequence sx))"] sx n m0
  show ?case by (simp add: add.assoc)
qed

lemma find_end_segment_at:
  assumes "\<forall>x\<in>set xs. x < k" and "prefix_length self xs k = Inr n"
    and "get_segment self k = Inr s" and "seg_sequence s \<noteq> []"
  shows "find_end_segment self (xs @ k # ys) i cum (cum + n + int (length (seg_sequence s)))
           = Inr (i + length xs, cum + n)"
  using assms(1,2)
proof (induction xs arbitrary: i cum n)
  case Nil
  with assms(3,4) show ?case by simp
next
  case (Cons x xs)
  from Cons.prems obtain sx m where sx: "get_segment self x = Inr sx"
    and m: "prefix_length self xs k = Inr m"
    and n: "n = int (length (seg_sequence sx)) + m"
    by (auto split: sum.splits)
  from prefix_length_nonneg [OF m] have m0: "0 \<le> m" .
  from assms(4) have "0 < length (seg_sequence s)" by simp
  with m0 have pos: "\<not> m + int (length (seg_sequence s)) \<le> 0" by linarith
  from Cons.prems(1) have lt: "\<forall>x\<in>set xs. x < k" by simp
  from Cons.IH [OF lt m, of "Suc i" "cum + int (length (seg_sequence sx))"] sx n m0 pos
  show ?case by (simp add: add.assoc)
qed

lemma sorted_split:
  assumes "sorted sel" and "distinct sel" and "(k::int) \<in> set sel"
  shows "\<exists>xs ys. sel = xs @ k # ys \<and> (\<forall>x\<in>set xs. x < k) \<and> (\<forall>y\<in>set ys. \<not> y < k)"
proof -
  from assms(3) obtain xs ys where sel: "sel = xs @ k # ys" by (auto dest: split_list)
  from assms(1,2) sel have "\<forall>x\<in>set xs. x < k"
    by (auto simp: sorted_append order_less_le)
  moreover from assms(1) sel have "\<forall>y\<in>set ys. \<not> y < k"
    by (auto simp: sorted_append)
  ultimately show ?thesis using sel by blast
qed

lemma header_pos_at:
  assumes "sorted sel" and "distinct sel" and "k \<in> set sel"
    and "prefix_length self sel k = Inr pk"
    and "segment_data self k = Some s" and "seg_sequence s \<noteq> []"
  shows "header_start_pos self sel pk = Inr (seg_start s)"
    and "header_end_pos self sel (pk + int (length (seg_sequence s)))
           = Inr (seg_start s + int (length (seg_sequence s)) - 1)"
proof -
  from sorted_split [OF assms(1,2,3)] obtain xs ys where sel: "sel = xs @ k # ys"
    and xs: "\<forall>x\<in>set xs. x < k" and ys: "\<forall>y\<in>set ys. \<not> y < k" by blast
  from assms(4) sel prefix_length_split [OF ys, of self xs]
  have p: "prefix_length self xs k = Inr pk" by simp
  from assms(5) have g: "get_segment self k = Inr s" by (simp add: get_segment_def)
  have i: "py_index sel (length xs) = Inr k" by (simp add: sel py_index_def)
  from find_start_segment_at [OF xs p g assms(6), of ys 0 0]
  have "find_start_segment self sel 0 0 pk = Inr (length xs, pk)" by (simp add: sel)
  with i g show "header_start_pos self sel pk = Inr (seg_start s)"
    by (simp add: header_start_pos_def)
  from find_end_segment_at [OF xs p g assms(6), of ys 0 0]
  have "find_end_segment self sel 0 0 (pk + int (length (seg_sequence s))) = Inr (length xs, pk)"
    by (simp add: sel)
  with i g show "header_end_pos self sel (pk + int (length (seg_sequence s)))
           = Inr (seg_start s + int (length (seg_sequence s)) - 1)"
    by (simp add: header_end_pos_def)
qed

text \<open>
  C2, as the code has it: the selection is ascending without duplicates, segment \<open>k\<close> is
  selected and loaded with a content that is not empty, and the segments selected before
  it are loaded. The range truncation from the first to the last base of segment \<open>k\<close>
  gives the offsets \<open>pk\<close> and \<open>pk + len\<close>; the header's start computed back from the
  first is the segment's reference start, and the header's end computed back from the
  second is the reference start plus \<open>len - 1\<close>, which is the segment's reference end
  exactly when the content has \<open>end - start + 1\<close> bases. The counterexample is segment 2 of
  the short file, announced as 101-300 with 8 bases: its last base comes back as 108.
\<close>

theorem boundary_round_trip:
  assumes "sorted sel" and "distinct sel" and "int k \<in> set sel"
    and "prefix_length self sel (int k) = Inr pk"
    and "segment_data self (int k) = Some s" and "seg_sequence s \<noteq> []"
  shows "parse_truncation self
           (str_nat k @ '':'' @ str_nat 1 @ ''-'' @
            str_nat k @ '':'' @ str_nat (length (seg_sequence s))) sel =
           Inr (Some pk, Some (pk + int (length (seg_sequence s))), None) \<and>
         header_start_pos self sel pk = Inr (seg_start s) \<and>
         header_end_pos self sel (pk + int (length (seg_sequence s))) =
           Inr (seg_start s + int (length (seg_sequence s)) - 1) \<and>
         (header_end_pos self sel (pk + int (length (seg_sequence s))) = Inr (seg_end s) \<longleftrightarrow>
            int (length (seg_sequence s)) = seg_end s - seg_start s + 1)"
proof -
  have t: "parse_truncation self
           (str_nat k @ '':'' @ str_nat 1 @ ''-'' @
            str_nat k @ '':'' @ str_nat (length (seg_sequence s))) sel =
           Inr (Some pk, Some (pk + int (length (seg_sequence s))), None)"
    using parse_truncation_range_render [of self k 1 k "length (seg_sequence s)" sel] assms(3,4)
    by simp
  note h = header_pos_at [OF assms]
  from h(2) have "header_end_pos self sel (pk + int (length (seg_sequence s))) = Inr (seg_end s) \<longleftrightarrow>
            int (length (seg_sequence s)) = seg_end s - seg_start s + 1"
    by auto
  with t h show ?thesis by blast
qed

theorem boundary_round_trip_witness:
  "parse_truncation short_atlas ''1:1-1:4'' [1, 2] = Inr (Some 0, Some 4, None) \<and>
   header_start_pos short_atlas [1, 2] 0 = Inr 1 \<and>
   header_end_pos short_atlas [1, 2] 4 = Inr 4"
proof -
  have s: "str_nat 1 @ '':'' @ str_nat 1 @ ''-'' @ str_nat 1 @ '':'' @ str_nat 4 = ''1:1-1:4''"
    by code_simp
  have pk: "prefix_length short_atlas [1, 2] (int 1) = Inr 0"
    by (simp add: short_atlas_def two_segments_def get_segment_def)
  have so: "sorted [1, 2::int]" "distinct [1, 2::int]" "int 1 \<in> set [1, 2]" by simp_all
  have r: "seg_sequence \<lparr>seg_accession = ''ACC'', seg_start = 1, seg_end = 100,
             seg_header = ''>s1:ACC:1-100'', seg_sequence = ''ACGT''\<rparr> = ''ACGT''"
    "length ''ACGT'' = 4"
    by simp_all
  show ?thesis
    using boundary_round_trip [OF so pk seg1_short] unfolding r s by simp
qed

theorem boundary_round_trip_counterexample:
  "parse_truncation short_atlas ''2:1-2:8'' [1, 2] = Inr (Some 4, Some 12, None) \<and>
   header_start_pos short_atlas [1, 2] 4 = Inr 101 \<and>
   header_end_pos short_atlas [1, 2] 12 = Inr 108 \<and>
   map_option seg_end (segment_data short_atlas 2) = Some 300 \<and>
   main short_atlas \<lparr>arg_include_locus_segment = Some ''1,2'',
                     arg_truncate = Some ''2:1-2:8'', arg_polyA = None\<rparr> =
     Inr (''>ACC.1:101-108 Combined locus segments 1,2 (truncated)'', ''GGCCTTAA'')"
  by code_simp

subsection \<open>The scenario of the specification\<close>

lemma two_segments_get:
  "get_segment (two_segments h1 c1 h2 c2) 1 =
     Inr \<lparr>seg_accession = ''ACC'', seg_start = 1, seg_end = 100,
          seg_header = h1, seg_sequence = c1\<rparr>"
  "get_segment (two_segments h1 c1 h2 c2) 2 =
     Inr \<lparr>seg_accession = ''ACC'', seg_start = 101, seg_end = 300,
          seg_header = h2, seg_sequence = c2\<rparr>"
  by (simp_all add: two_segments_def get_segment_def)

text \<open>
  C1: for the file of two segments of the accession \<open>ACC\<close>, 1-100 with 100 bases and
  101-300 with 200 bases, the selection \<open>1,2\<close> is parsed to the ids 1 and 2 and the
  combined sequence has 300 bases; the truncation \<open>1:50-2:20\<close> is parsed to the start 49
  and the end 120; the kept slice has 71 bases, and the header starts with
  \<open>>ACC.1:50-120\<close>. The last conjunct is the whole run.
\<close>

theorem scenario_range_truncation:
  assumes "length c1 = 100" and "length c2 = 200"
  shows "parse_segment_selection (two_segments h1 c1 h2 c2) ''1,2'' = Inr [1, 2] \<and>
         combine_loop (two_segments h1 c1 h2 c2) [1, 2] [] = Inr (c1 @ c2) \<and>
         length (c1 @ c2) = 300 \<and>
         parse_truncation (two_segments h1 c1 h2 c2) ''1:50-2:20'' [1, 2] =
           Inr (Some 49, Some 120, None) \<and>
         length (drop 49 (take 120 (c1 @ c2))) = 71 \<and>
         combine_segments (two_segments h1 c1 h2 c2) [1, 2] (Some 49) (Some 120) None None =
           Inr (''>ACC.1:50-120 Combined locus segments 1,2 (truncated)'',
                drop 49 (take 120 (c1 @ c2))) \<and>
         main (two_segments h1 c1 h2 c2)
           \<lparr>arg_include_locus_segment = Some ''1,2'', arg_truncate = Some ''1:50-2:20'',
            arg_polyA = None\<rparr> =
           Inr (''>ACC.1:50-120 Combined locus segments 1,2 (truncated)'',
                drop 49 (take 120 (c1 @ c2)))"
proof -
  let ?self = "two_segments h1 c1 h2 c2"
  have sel: "parse_segment_selection ?self ''1,2'' = Inr [1, 2]"
    by code_simp
  have loop: "combine_loop ?self [1, 2] [] = Inr (c1 @ c2)"
    by (simp add: two_segments_get)
  have len: "length (c1 @ c2) = 300" using assms by simp
  have s: "str_nat 1 @ '':'' @ str_nat 50 @ ''-'' @ str_nat 2 @ '':'' @ str_nat 20 = ''1:50-2:20''"
    by code_simp
  have p1: "prefix_length ?self [1, 2] (int 1) = Inr 0"
    by (simp add: two_segments_get)
  have p2: "prefix_length ?self [1, 2] (int 2) = Inr 100"
    using assms by (simp add: two_segments_get)
  have tr: "parse_truncation ?self ''1:50-2:20'' [1, 2] = Inr (Some 49, Some 120, None)"
    using parse_truncation_range_render [of ?self 1 50 2 20 "[1, 2]"]
    unfolding s p1 p2 by simp
  have kept: "length (drop 49 (take 120 (c1 @ c2))) = 71" using assms by simp
  have hs: "header_start_pos ?self [1, 2] 49 = Inr 50"
    using assms by (simp add: header_start_pos_def two_segments_get py_index_def)
  have he: "header_end_pos ?self [1, 2] 120 = Inr 120"
    using assms by (simp add: header_end_pos_def two_segments_get py_index_def)
  have sl: "py_slice (c1 @ c2) 49 120 = drop 49 (take 120 (c1 @ c2))"
    using py_slice_in_range [of 49 120 "c1 @ c2"] len by simp
  have hd: "header_of (hd (split_on CHR ''.'' ''ACC'')) 50 120
               (description_of [1, 2] (Some 49) (Some 120) ) =
            ''>ACC.1:50-120 Combined locus segments 1,2 (truncated)''"
    by code_simp
  have comb: "combine_segments ?self [1, 2] (Some 49) (Some 120) None None =
           Inr (''>ACC.1:50-120 Combined locus segments 1,2 (truncated)'',
                drop 49 (take 120 (c1 @ c2)))"
    using len hs he sl hd
    by (simp add: combine_segments_def two_segments_get apply_truncation_def
        apply_poly_a_absent)
  have "main ?self
           \<lparr>arg_include_locus_segment = Some ''1,2'', arg_truncate = Some ''1:50-2:20'',
            arg_polyA = None\<rparr> =
           Inr (''>ACC.1:50-120 Combined locus segments 1,2 (truncated)'',
                drop 49 (take 120 (c1 @ c2)))"
    using sel tr comb by (simp add: main_def given_def)
  with sel loop len tr kept comb show ?thesis by blast
qed

theorem scenario_range_truncation_witness:
  "main (two_segments ''>s1:ACC:1-100'' (replicate 100 CHR ''C'')
                      ''>s2:ACC:101-300'' (replicate 200 CHR ''G''))
     \<lparr>arg_include_locus_segment = Some ''1,2'', arg_truncate = Some ''1:50-2:20'',
      arg_polyA = None\<rparr> =
     Inr (''>ACC.1:50-120 Combined locus segments 1,2 (truncated)'',
          replicate 51 CHR ''C'' @ replicate 20 CHR ''G'')"
  using scenario_range_truncation [of "replicate 100 CHR ''C''" "replicate 200 CHR ''G''"
      "''>s1:ACC:1-100''" "''>s2:ACC:101-300''"]
  by simp

end
